theory Spec2Isabelle
  imports Main "HOL-Library.List_Lexorder" "HOL-Library.Sublist" "HOL-Library.Multiset"
begin

section \<open>Python strings and integers\<close>

text \<open>
  A Python \<open>str\<close> is a sequence of Unicode code points: \<open>len\<close> counts code points and
  \<open>list.sort\<close> compares strings code point by code point, a proper prefix first. A string
  is therefore a list of code points (natural numbers), ordered lexicographically. The
  bullet glyph and the emotes of the configuration are single code points beyond ASCII.
  \<open>lit\<close> embeds the ASCII literals of the source.
\<close>

type_synonym codepoint = nat
type_synonym str = "codepoint list"

definition lit :: "string \<Rightarrow> str" where
  "lit s = map of_char s"

definition newline :: codepoint where
  "newline = 10"

text \<open>\<open>str(n)\<close> for an integer: the decimal digits, with a minus sign when negative.\<close>

function digits :: "nat \<Rightarrow> str" where
  "digits n = (if n < 10 then [48 + n] else digits (n div 10) @ [48 + n mod 10])"
  by pat_completeness auto
termination
  by (relation "measure (\<lambda>n. n)") auto

declare digits.simps [simp del]

definition str_int :: "int \<Rightarrow> str" where
  "str_int i = (if i < 0 then 45 # digits (nat (- i)) else digits (nat i))"

text \<open>\<open>sep.join(xs)\<close>.\<close>

fun join :: "str \<Rightarrow> str list \<Rightarrow> str" where
  "join sep [] = []"
| "join sep [x] = x"
| "join sep (x # y # ys) = x @ sep @ join sep (y # ys)"

text \<open>
  \<open>s.rfind(c, 0, e)\<close> for a one-character needle \<open>c\<close> and a non-negative \<open>e\<close>: the
  highest index of \<open>c\<close> in \<open>s[0:e]\<close>, or \<open>-1\<close>. An \<open>e\<close> beyond the length is the length.
\<close>

fun last_index :: "codepoint \<Rightarrow> str \<Rightarrow> int" where
  "last_index c [] = - 1"
| "last_index c (x # xs) =
     (let r = last_index c xs
      in if 0 \<le> r then r + 1 else if x = c then 0 else - 1)"

definition rfind :: "str \<Rightarrow> codepoint \<Rightarrow> nat \<Rightarrow> int" where
  "rfind s c e = last_index c (take e s)"

text \<open>
  The slice \<open>s[:e]\<close>: a negative \<open>e\<close> counts from the end (\<open>s[:-1]\<close> drops the last
  character), and the bounds are clamped to the string.
\<close>

definition slice_to :: "str \<Rightarrow> int \<Rightarrow> str" where
  "slice_to s e = (if e < 0 then take (nat (int (length s) + e)) s else take (nat e) s)"

datatype error = KeyError | IndexError | NameError | ZeroDivisionError

section \<open>The year pattern\<close>

text \<open>
  \<open>clean_year\<close> tests the title with \<open>re.compile(".*\([12][0-9]{3}\)$").match\<close>. The
  fragment of Python's regular expressions the pattern uses is embedded as data, with a
  matcher that follows the semantics of \<open>re\<close> in its default mode: \<open>.\<close> is any character
  but a newline, \<open>$\<close> holds at the end of the string and just before a newline that ends
  the string, and \<open>match\<close> anchors the pattern at the start only. Whether a match exists
  does not depend on the order in which the backtracking matcher tries the alternatives
  of \<open>*\<close>, so the matcher is the disjunction of both.
\<close>

datatype atom = AnyChar | Chr codepoint | OneOf "codepoint list" | Range codepoint codepoint

datatype item = One atom | Star atom | Repeat atom nat | EndOfString

fun atom_matches :: "atom \<Rightarrow> codepoint \<Rightarrow> bool" where
  "atom_matches AnyChar c = (c \<noteq> newline)"
| "atom_matches (Chr d) c = (c = d)"
| "atom_matches (OneOf ds) c = (c \<in> set ds)"
| "atom_matches (Range lo hi) c = (lo \<le> c \<and> c \<le> hi)"

fun re_match :: "item list \<Rightarrow> str \<Rightarrow> bool" where
  "re_match [] s = True"
| "re_match (One a # p) [] = False"
| "re_match (One a # p) (c # cs) = (atom_matches a c \<and> re_match p cs)"
| "re_match (Star a # p) [] = re_match p []"
| "re_match (Star a # p) (c # cs) =
     ((atom_matches a c \<and> re_match (Star a # p) cs) \<or> re_match p (c # cs))"
| "re_match (Repeat a 0 # p) s = re_match p s"
| "re_match (Repeat a (Suc n) # p) [] = False"
| "re_match (Repeat a (Suc n) # p) (c # cs) = (atom_matches a c \<and> re_match (Repeat a n # p) cs)"
| "re_match (EndOfString # p) s = ((s = [] \<or> s = [newline]) \<and> re_match p s)"

definition year_regex :: "item list" where
  "year_regex =
     [Star AnyChar, One (Chr 40), One (OneOf [49, 50]), Repeat (Range 48 57) 3,
      One (Chr 41), EndOfString]"

section \<open>Titles\<close>

text \<open>A Movie or Show object of the media server, as far as the script reads it.\<close>

record media =
  title :: str
  year :: int

definition clean_year :: "media \<Rightarrow> str" where
  "clean_year m =
     (let t = [] @ title m
      in if \<not> re_match year_regex (title m)
         then t @ lit '' ('' @ str_int (year m) @ lit '')''
         else t)"

section \<open>Trimming and embeds\<close>

text \<open>
  \<open>trim_on_newlines\<close> reads the global \<open>max_length_exceeded_msg\<close>, here its first
  argument. \<open>max_length\<close> is a length budget: the script computes it as
  \<open>message_max_length // list_count\<close>, which is never negative.
\<close>

definition trim_on_newlines :: "str \<Rightarrow> str \<Rightarrow> nat \<Rightarrow> str" where
  "trim_on_newlines max_length_exceeded_msg long_string max_length =
     (if length long_string > max_length
      then (let e = rfind long_string newline max_length
            in slice_to long_string e @ max_length_exceeded_msg)
      else long_string @ max_length_exceeded_msg)"

record embed =
  embed_title :: str
  description :: str
  color :: int
  thumbnail :: "str option"

text \<open>
  \<open>create_embeds\<close> appends to the global list \<open>webhook_embeds\<close>: the list is passed in
  and returned.
\<close>

definition create_embeds ::
  "str \<Rightarrow> embed list \<Rightarrow> str \<Rightarrow> str \<Rightarrow> int \<Rightarrow> nat \<Rightarrow> embed list" where
  "create_embeds max_length_exceeded_msg webhook_embeds title_arg embed_description embed_color
       max_length =
     (let d = (if length embed_description > max_length
               then trim_on_newlines max_length_exceeded_msg embed_description max_length
               else embed_description)
      in webhook_embeds @
         [\<lparr>embed_title = title_arg, description = d, color = embed_color, thumbnail = None\<rparr>])"

section \<open>Configuration and the outside world\<close>

text \<open>
  The values the script reads from \<open>config.yml\<close>, under the names of the globals they are
  bound to. \<open>overflow_footer\<close> is the configured \<open>max_length_exceeded_msg\<close> and \<open>bullet\<close>
  the configured bullet, before the main block reformats them.
\<close>

record config =
  message_title :: str
  lookback_period :: str
  skip_movies :: bool
  skip_tv :: bool
  show_total_episodes :: bool
  show_individual_episodes :: bool
  embed_thumbnail :: str
  bullet :: str
  movie_embed_colour :: int
  tv_embed_colour :: int
  movie_emote :: str
  tv_emote :: str
  overflow_footer :: str
  uptime_status :: "str option"

record episode =
  grandparentRatingKey :: nat

text \<open>
  What the collaborators answer during one run: the two searches of the media server,
  \<open>plex.fetchItem\<close>, and whether \<open>webhook.send\<close> and the uptime request raise.
\<close>

record world =
  movies_search :: "media list"
  searchEpisodes :: "episode list"
  fetchItem :: "nat \<Rightarrow> media"
  send_raises :: bool
  ping_raises :: bool

datatype event = WebhookSend str "embed list" | Print str | UptimePing str

fun is_send :: "event \<Rightarrow> bool" where
  "is_send (WebhookSend h es) = True"
| "is_send (Print s) = False"
| "is_send (UptimePing u) = False"

definition message_max_length :: nat where
  "message_max_length = 4000"

section \<open>The lookback text\<close>

definition period_dict :: "codepoint \<Rightarrow> str option" where
  "period_dict c =
     (if c = of_char CHR ''m'' then Some (lit ''minute'')
      else if c = of_char CHR ''h'' then Some (lit ''hour'')
      else if c = of_char CHR ''d'' then Some (lit ''day'')
      else if c = of_char CHR ''w'' then Some (lit ''week'')
      else None)"

text \<open>\<open>period_dict[lookback_period[-1]]\<close>: IndexError on the empty string, KeyError on an unknown unit.\<close>

definition period_unit :: "str \<Rightarrow> error + str" where
  "period_unit p =
     (case p of
        [] \<Rightarrow> Inl IndexError
      | _ # _ \<Rightarrow> (case period_dict (last p) of None \<Rightarrow> Inl KeyError | Some u \<Rightarrow> Inr u))"

definition lookback_text :: "str \<Rightarrow> error + str" where
  "lookback_text p =
     (if slice_to p (- 1) = lit ''1''
      then period_unit p
      else (case period_unit p of
              Inl e \<Rightarrow> Inl e
            | Inr u \<Rightarrow> Inr (slice_to p (- 1) @ lit '' '' @ u @ lit ''s'')))"

section \<open>The movies block\<close>

text \<open>The argument \<open>b\<close> is the global \<open>bullet\<close> after \<open>bullet += " "\<close>.\<close>

definition movies_str :: "str \<Rightarrow> media list \<Rightarrow> str" where
  "movies_str b new_movies =
     (let new_movies_formatted = map clean_year new_movies
      in b @ join (newline # b) new_movies_formatted)"

definition movie_title :: "str \<Rightarrow> media list \<Rightarrow> str" where
  "movie_title emote new_movies =
     (let total_movies = length (map clean_year new_movies);
          movies_title_counted = lit ''Movie'' @ (if total_movies \<noteq> 1 then lit ''s'' else [])
      in str_int (int total_movies) @ lit '' '' @ movies_title_counted @ lit '' '' @ emote)"

section \<open>The shows block\<close>

definition newShows :: "(nat \<Rightarrow> media) \<Rightarrow> episode list \<Rightarrow> str list" where
  "newShows fetch new_eps = map (\<lambda>ep. clean_year (fetch (grandparentRatingKey ep))) new_eps"

text \<open>
  \<open>collections.Counter\<close> is a dict, which keeps its keys in the order of their first
  insertion: an association list. Counting an element adds one to its entry where it
  stands, or appends a new entry with count one.
\<close>

fun counter_incr :: "'k \<Rightarrow> ('k \<times> nat) list \<Rightarrow> ('k \<times> nat) list" where
  "counter_incr k [] = [(k, 1)]"
| "counter_incr k ((k', n) # kvs) =
     (if k = k' then (k', n + 1) # kvs else (k', n) # counter_incr k kvs)"

fun counter_update :: "('k \<times> nat) list \<Rightarrow> 'k list \<Rightarrow> ('k \<times> nat) list" where
  "counter_update c [] = c"
| "counter_update c (x # xs) = counter_update (counter_incr x c) xs"

definition Counter :: "'k list \<Rightarrow> ('k \<times> nat) list" where
  "Counter xs = counter_update [] xs"

text \<open>
  The loop over \<open>counted_shows\<close>. Its state is \<open>(show_list, total_episodes, episode_count)\<close>;
  \<open>episode_count\<close> is unbound (\<open>None\<close>) until the body has run once, and keeps the count
  of the last show after the loop.
\<close>

type_synonym loop_state = "str list \<times> nat \<times> nat option"

definition show_line :: "bool \<Rightarrow> str \<Rightarrow> str \<Rightarrow> nat \<Rightarrow> str" where
  "show_line individual b counted_show episode_count =
     (let episodes_counted = lit ''episode'' @ (if episode_count > 1 then lit ''s'' else [])
      in if individual
         then b @ counted_show @ lit '' - *'' @ str_int (int episode_count) @ lit '' '' @
              episodes_counted @ lit ''*''
         else b @ counted_show)"

fun shows_loop :: "bool \<Rightarrow> str \<Rightarrow> loop_state \<Rightarrow> (str \<times> nat) list \<Rightarrow> loop_state" where
  "shows_loop individual b st [] = st"
| "shows_loop individual b (show_list, total_episodes, episode_count) ((counted_show, n) # rest) =
     shows_loop individual b
       (show_list @ [show_line individual b counted_show n], total_episodes + n, Some n) rest"

text \<open>
  The title words after the loop: \<open>(show_title_counted, episode_title_counted)\<close>. The
  \<open>elif\<close> reads \<open>episode_count\<close>, a NameError while it is unbound.
\<close>

definition titles_counted :: "nat \<Rightarrow> nat option \<Rightarrow> error + (str \<times> str)" where
  "titles_counted total_shows episode_count =
     (if total_shows > 1 then Inr (lit ''Show'' @ lit ''s'', lit ''Episode'' @ lit ''s'')
      else (case episode_count of
              None \<Rightarrow> Inl NameError
            | Some n \<Rightarrow>
                if n > 1 then Inr (lit ''Show'' @ lit ''s'', lit ''Episode'')
                else Inr (lit ''Show'', lit ''Episode'')))"

text \<open>The variables the shows block leaves behind.\<close>

record shows_vars =
  counted_shows :: "(str \<times> nat) list"
  show_list :: "str list"
  total_episodes :: nat
  total_shows :: nat
  tv_str :: str
  show_title_counted :: str
  episode_title_counted :: str
  tv_title :: str

definition shows_block :: "config \<Rightarrow> str \<Rightarrow> (nat \<Rightarrow> media) \<Rightarrow> episode list \<Rightarrow> error + shows_vars" where
  "shows_block cfg b fetch new_eps =
     (let cs = Counter (newShows fetch new_eps);
          (unsorted, total, episode_count) =
             shows_loop (show_individual_episodes cfg) b ([], 0, None) cs;
          sl = sort unsorted;
          ts = length sl
      in case titles_counted ts episode_count of
           Inl e \<Rightarrow> Inl e
         | Inr (stc, etc) \<Rightarrow>
             Inr \<lparr>counted_shows = cs, show_list = sl, total_episodes = total, total_shows = ts,
                  tv_str = join [newline] sl,
                  show_title_counted = stc, episode_title_counted = etc,
                  tv_title =
                    (if show_total_episodes cfg
                     then str_int (int ts) @ lit '' '' @ stc @ lit '' /'' @ lit '' '' @
                          str_int (int total) @ lit '' '' @ etc @ lit '' '' @ tv_emote cfg
                     else str_int (int ts) @ lit '' '' @ stc @ lit '' '' @ tv_emote cfg)\<rparr>)"

section \<open>Building and sending the embeds\<close>

definition embed_length :: "str list \<Rightarrow> error + nat" where
  "embed_length media_lists =
     (let list_count = length media_lists
      in if sum_list (map length media_lists) < message_max_length
         then Inr message_max_length
         else if list_count = 0 then Inl ZeroDivisionError
         else Inr (message_max_length div list_count))"

definition set_thumbnail :: "str \<Rightarrow> embed \<Rightarrow> embed" where
  "set_thumbnail url e = e\<lparr>thumbnail := Some url\<rparr>"

definition truthy :: "str option \<Rightarrow> bool" where
  "truthy v = (case v of None \<Rightarrow> False | Some s \<Rightarrow> s \<noteq> [])"

definition nothing_to_send :: str where
  "nothing_to_send = lit ''No new/specified media to notify about - message not sent.''"

definition sending :: "world \<Rightarrow> str \<Rightarrow> embed list \<Rightarrow> event list" where
  "sending w header webhook_embeds =
     (if webhook_embeds \<noteq> []
      then WebhookSend header webhook_embeds #
           (if send_raises w then [Print (lit ''There was an error sending the message:'')] else [])
      else [Print nothing_to_send])"

definition uptime_ping :: "config \<Rightarrow> world \<Rightarrow> event list" where
  "uptime_ping cfg w =
     (if truthy (uptime_status cfg)
      then UptimePing (the (uptime_status cfg)) #
           (if ping_raises w
            then [Print (lit ''There was an error pinging the uptime status monitor:'')]
            else [])
      else [])"

text \<open>
  The main block. The result is the exception that ends the run, or what the run did to
  the outside, in order.
\<close>

definition run :: "config \<Rightarrow> world \<Rightarrow> error + event list" where
  "run cfg w =
     (let b = bullet cfg @ lit '' '';
          max_length_exceeded_msg = lit ''\<newline>\<newline>**'' @ overflow_footer cfg @ lit ''**''
      in case lookback_text (lookback_period cfg) of
           Inl e \<Rightarrow> Inl e
         | Inr lt \<Rightarrow>
      let header = lit ''_ _\<newline>**'' @ message_title cfg @ lit '' '' @ lt @ lit '':**'';
          new_movies = (if skip_movies cfg then [] else movies_search w);
          skip_m = (skip_movies cfg \<or> new_movies = []);
          new_eps = (if skip_tv cfg then [] else searchEpisodes w);
          skip_t = (skip_tv cfg \<or> new_eps = [])
      in case (if skip_t then Inr None
               else (case shows_block cfg b (fetchItem w) new_eps of
                       Inl e \<Rightarrow> Inl e | Inr v \<Rightarrow> Inr (Some v))) of
           Inl e \<Rightarrow> Inl e
         | Inr tv \<Rightarrow>
      let media_lists = (if skip_m then [] else [movies_str b new_movies]) @
                        (case tv of None \<Rightarrow> [] | Some v \<Rightarrow> [tv_str v])
      in case embed_length media_lists of
           Inl e \<Rightarrow> Inl e
         | Inr n \<Rightarrow>
      let embeds1 = (if skip_m then []
                     else create_embeds max_length_exceeded_msg []
                            (movie_title (movie_emote cfg) new_movies) (movies_str b new_movies)
                            (movie_embed_colour cfg) n);
          embeds2 = (case tv of
                       None \<Rightarrow> embeds1
                     | Some v \<Rightarrow>
                         create_embeds max_length_exceeded_msg embeds1 (tv_title v) (tv_str v)
                           (tv_embed_colour cfg) n);
          webhook_embeds = map (set_thumbnail (embed_thumbnail cfg)) embeds2
      in Inr (sending w header webhook_embeds @ uptime_ping cfg w))"

text \<open>
  The claim that the lines of the shows block stand in the order of the display titles,
  in the words of the specification: one line per counted show, the shows taken in
  ascending order of their titles.
\<close>

definition lines_by_title :: "bool \<Rightarrow> str \<Rightarrow> (str \<times> nat) list \<Rightarrow> str list" where
  "lines_by_title individual b cs =
     map (\<lambda>(t, n). show_line individual b t n) (sort_key fst cs)"

text \<open>
  The claim about the trimmed text, in the words of the specification: the text up to the
  last newline at or before index \<open>allowedLength\<close>, followed by the notice; and the part of
  a result that stands before the notice.
\<close>

definition truncate_spec :: "str \<Rightarrow> str \<Rightarrow> nat \<Rightarrow> str" where
  "truncate_spec notice bodyText allowedLength =
     take (nat (last_index newline (take (Suc allowedLength) bodyText))) bodyText @ notice"

definition pre_notice :: "str \<Rightarrow> str \<Rightarrow> str" where
  "pre_notice notice r = take (length r - length notice) r"

section \<open>A sample configuration\<close>

definition example_config :: config where
  "example_config =
     \<lparr>message_title = lit ''New media added in the last'', lookback_period = lit ''24h'',
      skip_movies = False, skip_tv = False,
      show_total_episodes = True, show_individual_episodes = True,
      embed_thumbnail = lit ''https://example.org/plex.png'', bullet = [8226],
      movie_embed_colour = 15048717, tv_embed_colour = 15048717,
      movie_emote = [127916], tv_emote = [128250],
      overflow_footer = lit ''and more'', uptime_status = None\<rparr>"

definition example_world :: "media list \<Rightarrow> episode list \<Rightarrow> (nat \<Rightarrow> media) \<Rightarrow> world" where
  "example_world ms es f =
     \<lparr>movies_search = ms, searchEpisodes = es, fetchItem = f, send_raises = False,
      ping_raises = False\<rparr>"

definition no_show :: "nat \<Rightarrow> media" where
  "no_show k = \<lparr>title = [], year = 0\<rparr>"

text \<open>
  The claim about titles, in the words of the specification: the title ends with a
  four-digit year between 1000 and 2999 enclosed in parentheses.
\<close>

definition is_digit :: "codepoint \<Rightarrow> bool" where
  "is_digit c = (48 \<le> c \<and> c \<le> 57)"

definition year_in_parentheses :: "str \<Rightarrow> bool" where
  "year_in_parentheses u =
     (case u of
        [q, a, b, c, d, p] \<Rightarrow>
          q = 40 \<and> (a = 49 \<or> a = 50) \<and> is_digit b \<and> is_digit c \<and> is_digit d \<and> p = 41
      | _ \<Rightarrow> False)"

definition ends_with_year :: "str \<Rightarrow> bool" where
  "ends_with_year t = (6 \<le> length t \<and> year_in_parentheses (drop (length t - 6) t))"

text \<open>Two shows whose lines and titles sort differently, and two shows with one display title.\<close>

definition two_shows :: "nat \<Rightarrow> media" where
  "two_shows k =
     (if k = 1 then \<lparr>title = lit ''A'', year = 2000\<rparr>
      else \<lparr>title = lit ''A (2000) & B'', year = 2001\<rparr>)"

definition same_title_shows :: "nat \<Rightarrow> media" where
  "same_title_shows k =
     (if k = 1 then \<lparr>title = lit ''Foo'', year = 2000\<rparr>
      else \<lparr>title = lit ''Foo (2000)'', year = 1990\<rparr>)"

section \<open>Evaluation and library lemmas\<close>

lemma lit_simps [simp]: "lit [] = []" "lit (c # cs) = of_char c # lit cs"
  by (simp_all add: lit_def)

lemma re_match_Repeat:
  "re_match (Repeat a n # p) s =
     (if n = 0 then re_match p s
      else (case s of [] \<Rightarrow> False
            | c # cs \<Rightarrow> atom_matches a c \<and> re_match (Repeat a (n - 1) # p) cs))"
  by (cases n; cases s) simp_all

lemma digits_small: "n < 10 \<Longrightarrow> digits n = [48 + n]"
  by (simp add: digits.simps)

lemmas run_defs =
  run_def example_config_def example_world_def lookback_text_def period_unit_def
  period_dict_def slice_to_def movies_str_def movie_title_def clean_year_def year_regex_def
  newline_def embed_length_def message_max_length_def create_embeds_def set_thumbnail_def
  sending_def uptime_ping_def truthy_def str_int_def digits_small Let_def re_match_Repeat

section \<open>The last newline\<close>

lemma last_index_none: "c \<notin> set xs \<Longrightarrow> last_index c xs = - 1"
  by (induction xs) (auto simp: Let_def)

lemma last_index_found:
  "c \<in> set xs \<Longrightarrow>
     0 \<le> last_index c xs \<and> nat (last_index c xs) < length xs \<and>
     xs ! nat (last_index c xs) = c \<and>
     (\<forall>j. nat (last_index c xs) < j \<and> j < length xs \<longrightarrow> xs ! j \<noteq> c)"
proof (induction xs)
  case Nil
  then show ?case by simp
next
  case (Cons x xs)
  show ?case
  proof (cases "c \<in> set xs")
    case True
    with Cons.IH have ih: "0 \<le> last_index c xs" "nat (last_index c xs) < length xs"
      "xs ! nat (last_index c xs) = c"
      "\<forall>j. nat (last_index c xs) < j \<and> j < length xs \<longrightarrow> xs ! j \<noteq> c"
      by auto
    have eq: "last_index c (x # xs) = last_index c xs + 1"
      using ih(1) by (simp add: Let_def)
    have n: "nat (last_index c xs + 1) = Suc (nat (last_index c xs))"
      using ih(1) by simp
    show ?thesis
      unfolding eq n using ih
      by (auto simp: nth_Cons split: nat.splits)
  next
    case False
    with Cons.prems have xc: "x = c" by simp
    have eq: "last_index c (x # xs) = 0"
      using False xc by (simp add: Let_def last_index_none)
    show ?thesis
      unfolding eq using False xc
      by (auto simp: nth_Cons split: nat.splits)
  qed
qed

lemma suffix_trim: "suffix msg (trim_on_newlines msg s n)"
  by (simp add: trim_on_newlines_def Let_def suffix_def)

section \<open>The overflow notice\<close>

text \<open>
  Claim C1, as the code has it: \<open>trim_on_newlines\<close> always ends its result with the
  overflow notice, but \<open>create_embeds\<close> calls it only for a description longer than
  \<open>max_length\<close>. The description of the embed it appends ends with the notice when the
  body was longer than \<open>max_length\<close>, and is the body itself, unchanged, otherwise.
\<close>

theorem notice_only_when_trimmed:
  "suffix msg (trim_on_newlines msg s n) \<and>
   (if n < length s
    then suffix msg (description (last (create_embeds msg embeds t s c n)))
    else description (last (create_embeds msg embeds t s c n)) = s)"
  by (simp add: create_embeds_def suffix_trim)

theorem notice_only_when_trimmed_witness:
  "suffix (lit ''!'') (trim_on_newlines (lit ''!'') (lit ''ab'') 5) \<and>
   description (last (create_embeds (lit ''!'') [] (lit ''t'') (lit ''ab'') 0 5)) = lit ''ab''"
  using notice_only_when_trimmed [of "lit ''!''" "lit ''ab''" 5 "[]" "lit ''t''" 0] by simp

text \<open>
  Claim C1 as stated fails: a run with one new movie sends a section whose body is the
  bulleted title alone, with no notice after it.
\<close>

theorem short_section_has_no_notice:
  "run example_config
       (example_world [\<lparr>title = lit ''Dune (2021)'', year = 2021\<rparr>] [] no_show) =
     Inr [WebhookSend (lit ''_ _\<newline>**New media added in the last 24 hours:**'')
            [\<lparr>embed_title = lit ''1 Movie '' @ [127916],
              description = 8226 # lit '' Dune (2021)'',
              color = 15048717,
              thumbnail = Some (lit ''https://example.org/plex.png'')\<rparr>]] \<and>
   \<not> suffix (lit ''\<newline>\<newline>**and more**'') (8226 # lit '' Dune (2021)'')"
  by (simp add: run_defs suffix_to_prefix)

section \<open>Trimming at a newline\<close>

text \<open>
  Claim C2, as the code has it: when the text is longer than \<open>max_length\<close> and one of its
  first \<open>max_length\<close> characters is a newline, the result is the text before the last
  newline whose index is strictly below \<open>max_length\<close>, followed by the notice; the part
  before the notice is then shorter than \<open>max_length\<close>.
\<close>

theorem trim_cuts_before_last_newline:
  assumes "max_length < length s" and "newline \<in> set (take max_length s)"
  shows "\<exists>p. p < max_length \<and> s ! p = newline \<and>
             (\<forall>j. p < j \<and> j < max_length \<longrightarrow> s ! j \<noteq> newline) \<and>
             trim_on_newlines msg s max_length = take p s @ msg \<and>
             length (take p s) = p"
proof -
  let ?t = "take max_length s"
  let ?p = "nat (last_index newline ?t)"
  have len: "length ?t = max_length"
    using assms(1) by simp
  from last_index_found [OF assms(2)]
  have f: "0 \<le> last_index newline ?t" "?p < length ?t" "?t ! ?p = newline"
    "\<forall>j. ?p < j \<and> j < length ?t \<longrightarrow> ?t ! j \<noteq> newline"
    by auto
  have p_lt: "?p < max_length" using f(2) len by simp
  have at: "s ! ?p = newline" using f(3) p_lt by simp
  have after: "\<forall>j. ?p < j \<and> j < max_length \<longrightarrow> s ! j \<noteq> newline"
    using f(4) len by auto
  have res: "trim_on_newlines msg s max_length = take ?p s @ msg"
    using assms(1) f(1) by (simp add: trim_on_newlines_def rfind_def slice_to_def Let_def)
  have l: "length (take ?p s) = ?p"
    using p_lt assms(1) by simp
  show ?thesis
    using p_lt at after res l by blast
qed

theorem trim_cuts_before_last_newline_witness:
  "\<exists>p. p < 5 \<and>
       trim_on_newlines (lit ''!'') (lit ''ab\<newline>cd\<newline>ef'') 5 =
         take p (lit ''ab\<newline>cd\<newline>ef'') @ lit ''!''"
proof -
  have a: "5 < length (lit ''ab\<newline>cd\<newline>ef'')" by simp
  have b: "newline \<in> set (take 5 (lit ''ab\<newline>cd\<newline>ef''))" by (simp add: newline_def)
  from trim_cuts_before_last_newline [OF a b, of "lit ''!''"] show ?thesis by blast
qed

text \<open>
  Claim C2 as stated fails twice. A newline at index \<open>allowedLength\<close> itself is not found:
  with newlines at indices 2 and 5 and \<open>max_length = 5\<close> the code keeps two characters
  where the claim keeps five. And with no newline among the first \<open>max_length\<close>
  characters \<open>rfind\<close> answers \<open>-1\<close>, the slice drops the last character only, and the part
  before the notice is longer than \<open>max_length\<close>.
\<close>

theorem trim_differs_from_spec:
  "trim_on_newlines (lit ''!'') (lit ''ab\<newline>cd\<newline>ef'') 5 = lit ''ab!'' \<and>
   truncate_spec (lit ''!'') (lit ''ab\<newline>cd\<newline>ef'') 5 = lit ''ab\<newline>cd!'' \<and>
   trim_on_newlines (lit ''!'') (lit ''ab\<newline>cd\<newline>ef'') 5 \<noteq>
     truncate_spec (lit ''!'') (lit ''ab\<newline>cd\<newline>ef'') 5 \<and>
   trim_on_newlines (lit ''!'') (lit ''abcdef\<newline>g'') 2 = lit ''abcdef\<newline>!'' \<and>
   \<not> length (pre_notice (lit ''!'') (trim_on_newlines (lit ''!'') (lit ''abcdef\<newline>g'') 2)) \<le> 2"
  by (simp add: trim_on_newlines_def truncate_spec_def pre_notice_def rfind_def slice_to_def
      newline_def Let_def)

section \<open>The length allowed to each embed\<close>

text \<open>
  Claim C3: when the lengths of the lists sum to less than 4000, \<open>embed_length\<close> is 4000;
  otherwise it is 4000 divided by the number of lists, rounded down, and the division
  never fails. Both embeds are created with this one length, so with one or two lists the
  lengths allowed in the second case sum to 4000.
\<close>

theorem embed_length_allocation:
  "embed_length media_lists =
     Inr (if sum_list (map length media_lists) < 4000 then 4000
          else 4000 div length media_lists) \<and>
   (\<not> sum_list (map length media_lists) < 4000 \<and>
      (length media_lists = 1 \<or> length media_lists = 2) \<longrightarrow>
      (\<exists>n. embed_length media_lists = Inr n \<and> sum_list (map (\<lambda>_. n) media_lists) = 4000))"
proof -
  have nz: "\<not> sum_list (map length media_lists) < 4000 \<Longrightarrow> length media_lists \<noteq> 0"
    by auto
  have a: "embed_length media_lists =
     Inr (if sum_list (map length media_lists) < 4000 then 4000
          else 4000 div length media_lists)"
    using nz by (auto simp: embed_length_def message_max_length_def Let_def)
  have b: "length media_lists = 1 \<or> length media_lists = 2 \<Longrightarrow>
      sum_list (map (\<lambda>_. 4000 div length media_lists) media_lists) = (4000::nat)"
    by (auto simp: sum_list_triv)
  show ?thesis using a b by auto
qed

theorem embed_length_allocation_witness:
  "embed_length [replicate 3000 97, replicate 2000 98] = Inr 2000 \<and>
   sum_list (map (\<lambda>_. 2000) [replicate 3000 (97::nat), replicate 2000 98]) = (4000::nat)"
  using embed_length_allocation [of "[replicate 3000 97, replicate 2000 98]"]
  by (simp add: numeral_2_eq_2 [symmetric])

section \<open>Counting with \<open>Counter\<close>\<close>

lemma counter_incr_keys:
  "map fst (counter_incr k c) = (if k \<in> set (map fst c) then map fst c else map fst c @ [k])"
  by (induction c) force+

lemma counter_incr_sum: "sum_list (map snd (counter_incr k c)) = Suc (sum_list (map snd c))"
  by (induction c) auto

lemma counter_incr_map_of:
  "map_of (counter_incr k c) k' =
     (if k' = k then Some (case map_of c k of None \<Rightarrow> 1 | Some n \<Rightarrow> n + 1) else map_of c k')"
  by (induction c) auto

lemma counter_update_distinct:
  "distinct (map fst c) \<Longrightarrow> distinct (map fst (counter_update c xs))"
  by (induction xs arbitrary: c) (auto simp: counter_incr_keys)

lemma counter_update_keys: "set (map fst (counter_update c xs)) = set (map fst c) \<union> set xs"
proof (induction xs arbitrary: c)
  case Nil
  show ?case by simp
next
  case (Cons x xs)
  have "set (map fst (counter_incr x c)) = insert x (set (map fst c))"
    by (auto simp: counter_incr_keys)
  with Cons.IH [of "counter_incr x c"] show ?case by auto
qed

lemma counter_update_sum:
  "sum_list (map snd (counter_update c xs)) = sum_list (map snd c) + length xs"
  by (induction xs arbitrary: c) (auto simp: counter_incr_sum)

lemma counter_update_map_of:
  "map_of (counter_update c xs) k =
     (case map_of c k of
        None \<Rightarrow> if k \<in> set xs then Some (count_list xs k) else None
      | Some n \<Rightarrow> Some (n + count_list xs k))"
proof (induction xs arbitrary: c)
  case Nil
  show ?case by (simp split: option.splits)
next
  case (Cons x xs)
  show ?case
    by (simp add: Cons.IH counter_incr_map_of split: option.splits)
qed

lemma Counter_distinct: "distinct (map fst (Counter xs))"
  by (simp add: Counter_def counter_update_distinct)

lemma Counter_keys: "set (map fst (Counter xs)) = set xs"
  using counter_update_keys [of "[]" xs] by (simp add: Counter_def)

lemma Counter_sum: "sum_list (map snd (Counter xs)) = length xs"
  by (simp add: Counter_def counter_update_sum)

lemma Counter_map_of:
  "map_of (Counter xs) k = (if k \<in> set xs then Some (count_list xs k) else None)"
  by (simp add: Counter_def counter_update_map_of)

lemma Counter_nonempty: "xs \<noteq> [] \<Longrightarrow> Counter xs \<noteq> []"
  using Counter_keys [of xs] by (cases "Counter xs") auto

lemma Counter_set:
  "set (Counter xs) = {(k, n). k \<in> set xs \<and> n = count_list xs k}"
proof -
  have "(k, n) \<in> set (Counter xs) \<longleftrightarrow> map_of (Counter xs) k = Some n" for k n
    using Counter_distinct [of xs] by simp
  then show ?thesis
    by (auto simp: Counter_map_of split: if_splits)
qed

lemma Counter_mset:
  assumes "mset xs = mset ys"
  shows "mset (Counter xs) = mset (Counter ys)"
proof -
  have s: "set xs = set ys"
    using assms by (rule mset_eq_setD)
  have c: "count_list xs k = count_list ys k" for k
    using assms by (metis count_mset)
  have "set (Counter xs) = set (Counter ys)"
    by (simp add: Counter_set s c)
  moreover have "distinct (Counter xs)" "distinct (Counter ys)"
    using Counter_distinct [of xs] Counter_distinct [of ys] by (simp_all add: distinct_map)
  ultimately show ?thesis
    by (simp add: set_eq_iff_mset_eq_distinct)
qed

section \<open>The loop over the counted shows\<close>

lemma shows_loop_result:
  "shows_loop individual b (sl, tot, ec) cs =
     (sl @ map (\<lambda>(t, n). show_line individual b t n) cs,
      tot + sum_list (map snd cs),
      if cs = [] then ec else Some (snd (last cs)))"
  by (induction cs arbitrary: sl tot ec) (auto simp: case_prod_beta)

lemma sort_cong_mset: "mset xs = mset ys \<Longrightarrow> sort xs = sort ys"
  by (metis mset_sort properties_for_sort sorted_sort)

lemma append_le_mono: "x \<le> y \<Longrightarrow> b @ x \<le> b @ (y :: 'a :: linorder list)"
  by (induction b) auto

lemma titles_counted_ok:
  "ec \<noteq> None \<Longrightarrow> \<exists>p. titles_counted ts ec = Inr p"
  by (auto simp: titles_counted_def)


lemma shows_block_Inr:
  assumes "new_eps \<noteq> []"
  shows "\<exists>v. shows_block cfg b fetch new_eps = Inr v \<and>
             counted_shows v = Counter (newShows fetch new_eps) \<and>
             show_list v =
               sort (map (\<lambda>(t, n). show_line (show_individual_episodes cfg) b t n)
                      (Counter (newShows fetch new_eps))) \<and>
             total_episodes v = length new_eps \<and>
             total_shows v = length (Counter (newShows fetch new_eps)) \<and>
             tv_str v = join [newline] (show_list v) \<and>
             titles_counted (length (Counter (newShows fetch new_eps)))
                 (Some (snd (last (Counter (newShows fetch new_eps))))) =
               Inr (show_title_counted v, episode_title_counted v)"
proof -
  let ?cs = "Counter (newShows fetch new_eps)"
  have ne: "?cs \<noteq> []"
    using assms by (intro Counter_nonempty) (simp add: newShows_def)
  obtain stc etc where t: "titles_counted (length ?cs) (Some (snd (last ?cs))) = Inr (stc, etc)"
    using titles_counted_ok [of "Some (snd (last ?cs))" "length ?cs"] by auto
  have len: "sum_list (map snd ?cs) = length new_eps"
    by (simp add: Counter_sum newShows_def)
  show ?thesis
    using ne t len by (simp add: shows_block_def shows_loop_result Let_def)
qed

lemma sorted_map_append:
  "sorted ws \<Longrightarrow> sorted (map ((@) b) (ws :: 'a :: linorder list list))"
  by (induction ws) (auto simp: append_le_mono)

lemma digits_large: "10 \<le> n \<Longrightarrow> digits n = digits (n div 10) @ [48 + n mod 10]"
  by (subst digits.simps) simp

lemmas shows_defs =
  shows_block_def Counter_def newShows_def clean_year_def year_regex_def newline_def
  show_line_def titles_counted_def str_int_def digits_small digits_large Let_def re_match_Repeat
  example_config_def two_shows_def same_title_shows_def lines_by_title_def

section \<open>The order of the show lines\<close>

text \<open>
  Claim C4, as the code has it: \<open>show_list.sort()\<close> sorts the finished lines, so the lines
  stand in ascending order as whole strings, and any reordering of the episodes gives
  the same lines and the same body. Where no episode count follows the title
  (\<open>show_episode_count_per_show\<close> off) a line is the bullet and the title, and the order of
  the lines is the order of the titles.
\<close>

theorem show_list_sorted_and_stable:
  assumes "new_eps \<noteq> []" and "mset new_eps' = mset new_eps"
  shows "\<exists>v v'. shows_block cfg b fetch new_eps = Inr v \<and>
                shows_block cfg b fetch new_eps' = Inr v' \<and>
                sorted (show_list v) \<and>
                show_list v' = show_list v \<and> tv_str v' = tv_str v \<and>
                (\<not> show_individual_episodes cfg \<longrightarrow>
                   show_list v = lines_by_title False b (counted_shows v))"
proof -
  let ?f = "\<lambda>(t, n). show_line (show_individual_episodes cfg) b t n"
  let ?cs = "Counter (newShows fetch new_eps)"
  let ?cs' = "Counter (newShows fetch new_eps')"
  have ne': "new_eps' \<noteq> []"
    using assms by auto
  obtain v where v: "shows_block cfg b fetch new_eps = Inr v" "counted_shows v = ?cs"
      "show_list v = sort (map ?f ?cs)" "tv_str v = join [newline] (show_list v)"
    using shows_block_Inr [OF assms(1), of cfg b fetch] by blast
  obtain v' where v': "shows_block cfg b fetch new_eps' = Inr v'"
      "show_list v' = sort (map ?f ?cs')" "tv_str v' = join [newline] (show_list v')"
    using shows_block_Inr [OF ne', of cfg b fetch] by blast
  have "mset (newShows fetch new_eps') = mset (newShows fetch new_eps)"
    using assms(2) by (simp add: newShows_def)
  then have "mset ?cs' = mset ?cs"
    by (rule Counter_mset)
  then have "mset (map ?f ?cs') = mset (map ?f ?cs)"
    by simp
  then have same: "show_list v' = show_list v"
    unfolding v v' by (rule sort_cong_mset)
  have titles: "show_list v = lines_by_title False b (counted_shows v)"
    if off: "\<not> show_individual_episodes cfg"
  proof -
    have f: "map ?f xs = map ((@) b) (map fst xs)" for xs
      using off by (simp add: show_line_def case_prod_beta)
    have g: "map (\<lambda>(t, n). show_line False b t n) xs = map ((@) b) (map fst xs)" for xs
      by (simp add: show_line_def case_prod_beta)
    have "mset (map ((@) b) (map fst (sort_key fst ?cs))) =
        mset (map ((@) b) (map fst ?cs))"
      by simp
    moreover have "sorted (map ((@) b) (map fst (sort_key fst ?cs)))"
      by (intro sorted_map_append) (rule sorted_sort_key)
    ultimately have "sort (map ((@) b) (map fst ?cs)) = map ((@) b) (map fst (sort_key fst ?cs))"
      by (rule properties_for_sort)
    then show ?thesis
      by (simp add: v lines_by_title_def f g)
  qed
  show ?thesis
    using v v' same titles by (auto simp: sorted_sort)
qed

theorem show_list_sorted_and_stable_witness:
  "\<exists>v v'. shows_block example_config (lit ''- '') two_shows
              [\<lparr>grandparentRatingKey = 1\<rparr>, \<lparr>grandparentRatingKey = 2\<rparr>] = Inr v \<and>
          shows_block example_config (lit ''- '') two_shows
              [\<lparr>grandparentRatingKey = 2\<rparr>, \<lparr>grandparentRatingKey = 1\<rparr>] = Inr v' \<and>
          sorted (show_list v) \<and> show_list v' = show_list v \<and> tv_str v' = tv_str v"
proof -
  have a: "[\<lparr>grandparentRatingKey = 1\<rparr>, \<lparr>grandparentRatingKey = 2\<rparr>] \<noteq> []"
    by simp
  have b: "mset [\<lparr>grandparentRatingKey = 2\<rparr>, \<lparr>grandparentRatingKey = 1\<rparr>] =
           mset [\<lparr>grandparentRatingKey = 1\<rparr>, \<lparr>grandparentRatingKey = 2\<rparr>]"
    by simp
  from show_list_sorted_and_stable [OF a b, of example_config "lit ''- ''" two_shows]
  show ?thesis by blast
qed

text \<open>
  Claim C4 as stated fails where the episode count follows the title: the title
  \<open>A (2000)\<close> is a prefix of \<open>A (2000) & B (2001)\<close> and sorts first, but its line goes on
  with \<open>-\<close>, which comes after \<open>&\<close>, so its line sorts last.
\<close>

theorem lines_not_in_title_order:
  "map_sum id show_list
     (shows_block example_config (8226 # lit '' '') two_shows
        [\<lparr>grandparentRatingKey = 1\<rparr>, \<lparr>grandparentRatingKey = 2\<rparr>]) =
     Inr [8226 # lit '' A (2000) & B (2001) - *1 episode*'',
          8226 # lit '' A (2000) - *1 episode*''] \<and>
   map_sum id (\<lambda>v. lines_by_title True (8226 # lit '' '') (counted_shows v))
     (shows_block example_config (8226 # lit '' '') two_shows
        [\<lparr>grandparentRatingKey = 1\<rparr>, \<lparr>grandparentRatingKey = 2\<rparr>]) =
     Inr [8226 # lit '' A (2000) - *1 episode*'',
          8226 # lit '' A (2000) & B (2001) - *1 episode*''] \<and>
   lit ''A (2000)'' < lit ''A (2000) & B (2001)''"
  by (simp add: shows_defs)

section \<open>The title of the shows embed\<close>

lemma Counter_length: "length (Counter xs) = card (set xs)"
proof -
  have "length (Counter xs) = length (map fst (Counter xs))"
    by simp
  also have "\<dots> = card (set (map fst (Counter xs)))"
    using Counter_distinct [of xs] by (simp only: distinct_card)
  finally show ?thesis
    by (simp only: Counter_keys)
qed

lemma Counter_single:
  assumes "length (Counter xs) = 1"
  shows "\<exists>t. Counter xs = [(t, length xs)]"
proof -
  obtain t n where c: "Counter xs = [(t, n)]"
    using assms by (cases "Counter xs") auto
  have "sum_list (map snd (Counter xs)) = length xs"
    by (rule Counter_sum)
  with c show ?thesis by simp
qed

lemma shows_block_tv_title:
  assumes "shows_block cfg b fetch new_eps = Inr v"
  shows "tv_title v =
           (if show_total_episodes cfg
            then str_int (int (total_shows v)) @ lit '' '' @ show_title_counted v @ lit '' / '' @
                 str_int (int (total_episodes v)) @ lit '' '' @ episode_title_counted v @
                 lit '' '' @ tv_emote cfg
            else str_int (int (total_shows v)) @ lit '' '' @ show_title_counted v @ lit '' '' @
                 tv_emote cfg)"
  using assms
  by (auto simp: shows_block_def Let_def split: prod.splits sum.splits)

text \<open>
  Claim C6: for a non-empty list of episodes the shows block ends without an exception,
  with one counted show for each distinct display title among the parents of the
  episodes. In \<open>tv_title\<close>, the title of the shows embed, the word after the number of
  shows is \<open>Shows\<close> exactly when there is more than one show, or one show with more than
  one new episode (all the episodes are then its episodes); otherwise it is \<open>Show\<close>. The
  theorem gives the whole title, with the word after the number of episodes as the
  script computes it.
\<close>

theorem show_title_pluralized:
  assumes "new_eps \<noteq> []"
  shows "\<exists>v. shows_block cfg b fetch new_eps = Inr v \<and>
             counted_shows v = Counter (newShows fetch new_eps) \<and>
             total_shows v = card (set (newShows fetch new_eps)) \<and>
             1 \<le> total_shows v \<and> total_shows v = length (counted_shows v) \<and>
             (total_shows v = 1 \<longrightarrow> (\<exists>t. counted_shows v = [(t, length new_eps)])) \<and>
             show_title_counted v =
               (if 1 < total_shows v \<or>
                   (total_shows v = 1 \<and> (\<exists>t n. counted_shows v = [(t, n)] \<and> 1 < n))
                then lit ''Shows'' else lit ''Show'') \<and>
             show_title_counted v =
               (if 1 < card (set (newShows fetch new_eps)) \<or>
                   (card (set (newShows fetch new_eps)) = 1 \<and> 1 < length new_eps)
                then lit ''Shows'' else lit ''Show'') \<and>
             episode_title_counted v =
               (if 1 < total_shows v then lit ''Episodes'' else lit ''Episode'') \<and>
             tv_title v =
               (if show_total_episodes cfg
                then str_int (int (total_shows v)) @ lit '' '' @ show_title_counted v @
                     lit '' / '' @ str_int (int (length new_eps)) @ lit '' '' @
                     episode_title_counted v @ lit '' '' @ tv_emote cfg
                else str_int (int (total_shows v)) @ lit '' '' @ show_title_counted v @
                     lit '' '' @ tv_emote cfg)"
proof -
  let ?xs = "newShows fetch new_eps"
  let ?cs = "Counter ?xs"
  obtain v where v: "shows_block cfg b fetch new_eps = Inr v" "counted_shows v = ?cs"
      "total_shows v = length ?cs" "total_episodes v = length new_eps"
      "titles_counted (length ?cs) (Some (snd (last ?cs))) =
         Inr (show_title_counted v, episode_title_counted v)"
    using shows_block_Inr [OF assms, of cfg b fetch] by blast
  have ne: "?cs \<noteq> []"
    using assms by (intro Counter_nonempty) (simp add: newShows_def)
  then have pos: "1 \<le> length ?cs"
    by (cases ?cs) auto
  have card: "length ?cs = card (set ?xs)"
    by (rule Counter_length)
  have lenxs: "length ?xs = length new_eps"
    by (simp add: newShows_def)
  have single: "\<exists>t. ?cs = [(t, length new_eps)]" if "length ?cs = 1"
    using Counter_single [OF that] lenxs by simp
  have word: "show_title_counted v =
      (if 1 < length ?cs \<or> (length ?cs = 1 \<and> (\<exists>t n. ?cs = [(t, n)] \<and> 1 < n))
       then lit ''Shows'' else lit ''Show'')"
  proof (cases "1 < length ?cs")
    case True
    then show ?thesis
      using v(5) by (auto simp: titles_counted_def)
  next
    case False
    with pos have l1: "length ?cs = 1" by simp
    then obtain t n where one: "?cs = [(t, n)]"
      by (cases ?cs) auto
    show ?thesis
      using v(5) one by (auto simp: titles_counted_def split: if_splits)
  qed
  have f3: "total_shows v = card (set ?xs)"
    using v(3) card by simp
  have f4: "1 \<le> total_shows v"
    using v(3) pos by simp
  have f5: "total_shows v = length (counted_shows v)"
    using v(2,3) by simp
  have f6: "total_shows v = 1 \<longrightarrow> (\<exists>t. counted_shows v = [(t, length new_eps)])"
    using v(2,3) single by simp
  have f7: "show_title_counted v =
      (if 1 < total_shows v \<or>
          (total_shows v = 1 \<and> (\<exists>t n. counted_shows v = [(t, n)] \<and> 1 < n))
       then lit ''Shows'' else lit ''Show'')"
    using word v(2,3) by simp
  have f8: "show_title_counted v =
      (if 1 < card (set ?xs) \<or> (card (set ?xs) = 1 \<and> 1 < length new_eps)
       then lit ''Shows'' else lit ''Show'')"
  proof (cases "length ?cs = 1")
    case True
    then obtain t where "?cs = [(t, length new_eps)]"
      using single by blast
    then show ?thesis
      using word True card by auto
  next
    case False
    then show ?thesis
      using word card by auto
  qed
  have f10: "episode_title_counted v =
      (if 1 < total_shows v then lit ''Episodes'' else lit ''Episode'')"
    using v(3,5) by (auto simp: titles_counted_def split: if_splits)
  have f9: "tv_title v =
      (if show_total_episodes cfg
       then str_int (int (total_shows v)) @ lit '' '' @ show_title_counted v @
            lit '' / '' @ str_int (int (length new_eps)) @ lit '' '' @
            episode_title_counted v @ lit '' '' @ tv_emote cfg
       else str_int (int (total_shows v)) @ lit '' '' @ show_title_counted v @
            lit '' '' @ tv_emote cfg)"
    using shows_block_tv_title [OF v(1)] v(4) by simp
  show ?thesis
    by (intro exI [of _ v] conjI) (fact v(1) v(2) f3 f4 f5 f6 f7 f8 f10 f9)+
qed

theorem show_title_pluralized_witness:
  "(\<exists>v. shows_block example_config (lit ''- '') two_shows
             [\<lparr>grandparentRatingKey = 1\<rparr>, \<lparr>grandparentRatingKey = 1\<rparr>,
              \<lparr>grandparentRatingKey = 1\<rparr>] = Inr v \<and>
        total_shows v = 1 \<and> show_title_counted v = lit ''Shows'' \<and>
        tv_title v = lit ''1 Shows / 3 Episode '' @ [128250]) \<and>
   (\<exists>v. shows_block example_config (lit ''- '') two_shows [\<lparr>grandparentRatingKey = 1\<rparr>] = Inr v \<and>
        total_shows v = 1 \<and> show_title_counted v = lit ''Show'' \<and>
        tv_title v = lit ''1 Show / 1 Episode '' @ [128250]) \<and>
   (\<exists>v. shows_block example_config (lit ''- '') two_shows
             [\<lparr>grandparentRatingKey = 1\<rparr>, \<lparr>grandparentRatingKey = 2\<rparr>] = Inr v \<and>
        total_shows v = 2 \<and> show_title_counted v = lit ''Shows'' \<and>
        tv_title v = lit ''2 Shows / 2 Episodes '' @ [128250])"
proof -
  let ?e1 = "\<lparr>grandparentRatingKey = 1\<rparr>"
  let ?e2 = "\<lparr>grandparentRatingKey = 2\<rparr>"
  let ?b = "lit ''- ''"
  have t: "newShows two_shows [?e1] = [lit ''A (2000)'']"
    "newShows two_shows [?e1, ?e2] = [lit ''A (2000)'', lit ''A (2000) & B (2001)'']"
    "newShows two_shows [?e1, ?e1, ?e1] = [lit ''A (2000)'', lit ''A (2000)'', lit ''A (2000)'']"
    by (simp_all add: shows_defs)
  have total: "show_total_episodes example_config" "tv_emote example_config = [128250]"
    by (simp_all add: example_config_def)
  have a: "\<exists>v. shows_block example_config ?b two_shows [?e1, ?e1, ?e1] = Inr v \<and>
        total_shows v = 1 \<and> show_title_counted v = lit ''Shows'' \<and>
        tv_title v = lit ''1 Shows / 3 Episode '' @ [128250]"
  proof -
    obtain v where v: "shows_block example_config ?b two_shows [?e1, ?e1, ?e1] = Inr v"
        "total_shows v = card (set (newShows two_shows [?e1, ?e1, ?e1]))"
        "show_title_counted v =
           (if 1 < card (set (newShows two_shows [?e1, ?e1, ?e1])) \<or>
               (card (set (newShows two_shows [?e1, ?e1, ?e1])) = 1 \<and> 1 < length [?e1, ?e1, ?e1])
            then lit ''Shows'' else lit ''Show'')"
        "episode_title_counted v =
           (if 1 < total_shows v then lit ''Episodes'' else lit ''Episode'')"
        "tv_title v =
           (if show_total_episodes example_config
            then str_int (int (total_shows v)) @ lit '' '' @ show_title_counted v @
                 lit '' / '' @ str_int (int (length [?e1, ?e1, ?e1])) @ lit '' '' @
                 episode_title_counted v @ lit '' '' @ tv_emote example_config
            else str_int (int (total_shows v)) @ lit '' '' @ show_title_counted v @
                 lit '' '' @ tv_emote example_config)"
      using show_title_pluralized [of "[?e1, ?e1, ?e1]" example_config ?b two_shows] by auto
    have n: "total_shows v = 1" using v(2) [unfolded t] by simp
    have w: "show_title_counted v = lit ''Shows''" using v(3) [unfolded t] by simp
    have "tv_title v = lit ''1 Shows / 3 Episode '' @ [128250]"
      using v(5) v(4) total n w by (simp add: str_int_def digits_small)
    with v(1) n w show ?thesis by blast
  qed
  have b: "\<exists>v. shows_block example_config ?b two_shows [?e1] = Inr v \<and>
        total_shows v = 1 \<and> show_title_counted v = lit ''Show'' \<and>
        tv_title v = lit ''1 Show / 1 Episode '' @ [128250]"
  proof -
    obtain v where v: "shows_block example_config ?b two_shows [?e1] = Inr v"
        "total_shows v = card (set (newShows two_shows [?e1]))"
        "show_title_counted v =
           (if 1 < card (set (newShows two_shows [?e1])) \<or>
               (card (set (newShows two_shows [?e1])) = 1 \<and> 1 < length [?e1])
            then lit ''Shows'' else lit ''Show'')"
        "episode_title_counted v =
           (if 1 < total_shows v then lit ''Episodes'' else lit ''Episode'')"
        "tv_title v =
           (if show_total_episodes example_config
            then str_int (int (total_shows v)) @ lit '' '' @ show_title_counted v @
                 lit '' / '' @ str_int (int (length [?e1])) @ lit '' '' @
                 episode_title_counted v @ lit '' '' @ tv_emote example_config
            else str_int (int (total_shows v)) @ lit '' '' @ show_title_counted v @
                 lit '' '' @ tv_emote example_config)"
      using show_title_pluralized [of "[?e1]" example_config ?b two_shows] by auto
    have n: "total_shows v = 1" using v(2) [unfolded t] by simp
    have w: "show_title_counted v = lit ''Show''" using v(3) [unfolded t] by simp
    have "tv_title v = lit ''1 Show / 1 Episode '' @ [128250]"
      using v(5) v(4) total n w by (simp add: str_int_def digits_small)
    with v(1) n w show ?thesis by blast
  qed
  have c: "\<exists>v. shows_block example_config ?b two_shows [?e1, ?e2] = Inr v \<and>
        total_shows v = 2 \<and> show_title_counted v = lit ''Shows'' \<and>
        tv_title v = lit ''2 Shows / 2 Episodes '' @ [128250]"
  proof -
    obtain v where v: "shows_block example_config ?b two_shows [?e1, ?e2] = Inr v"
        "total_shows v = card (set (newShows two_shows [?e1, ?e2]))"
        "show_title_counted v =
           (if 1 < card (set (newShows two_shows [?e1, ?e2])) \<or>
               (card (set (newShows two_shows [?e1, ?e2])) = 1 \<and> 1 < length [?e1, ?e2])
            then lit ''Shows'' else lit ''Show'')"
        "episode_title_counted v =
           (if 1 < total_shows v then lit ''Episodes'' else lit ''Episode'')"
        "tv_title v =
           (if show_total_episodes example_config
            then str_int (int (total_shows v)) @ lit '' '' @ show_title_counted v @
                 lit '' / '' @ str_int (int (length [?e1, ?e2])) @ lit '' '' @
                 episode_title_counted v @ lit '' '' @ tv_emote example_config
            else str_int (int (total_shows v)) @ lit '' '' @ show_title_counted v @
                 lit '' '' @ tv_emote example_config)"
      using show_title_pluralized [of "[?e1, ?e2]" example_config ?b two_shows] by auto
    have n: "total_shows v = 2" using v(2) [unfolded t] by simp
    have w: "show_title_counted v = lit ''Shows''" using v(3) [unfolded t] by simp
    have "tv_title v = lit ''2 Shows / 2 Episodes '' @ [128250]"
      using v(5) v(4) total n w by (simp add: str_int_def digits_small)
    with v(1) n w show ?thesis by blast
  qed
  show ?thesis
    using a b c by blast
qed

text \<open>
  Claim C7 at one show with three new episodes: the \<open>elif\<close> of the script adds the
  \<open>s\<close> to \<open>show_title_counted\<close> and leaves \<open>episode_title_counted\<close> alone, so the title
  reads \<open>1 Shows / 3 Episode\<close>.
\<close>

theorem one_show_three_episodes_title:
  "map_sum id tv_title
     (shows_block example_config (8226 # lit '' '') two_shows
        [\<lparr>grandparentRatingKey = 1\<rparr>, \<lparr>grandparentRatingKey = 1\<rparr>,
         \<lparr>grandparentRatingKey = 1\<rparr>]) =
     Inr (lit ''1 Shows / 3 Episode '' @ [128250])"
  by (simp add: shows_defs)

section \<open>One entry per display title\<close>

text \<open>
  Claim C9, as the code has it: the counter is keyed by the display title that
  \<open>clean_year\<close> gives the parent show, not by the show. It holds exactly one entry for
  each distinct display title, with the number of episodes whose parent has that title.
\<close>

theorem one_entry_per_title:
  assumes "new_eps \<noteq> []"
  shows "\<exists>v. shows_block cfg b fetch new_eps = Inr v \<and>
             distinct (map fst (counted_shows v)) \<and>
             set (map fst (counted_shows v)) = set (newShows fetch new_eps) \<and>
             (\<forall>t \<in> set (newShows fetch new_eps).
                map_of (counted_shows v) t = Some (count_list (newShows fetch new_eps) t))"
proof -
  obtain v where v: "shows_block cfg b fetch new_eps = Inr v"
      "counted_shows v = Counter (newShows fetch new_eps)"
    using shows_block_Inr [OF assms, of cfg b fetch] by blast
  show ?thesis
    using v Counter_distinct [of "newShows fetch new_eps"] Counter_keys [of "newShows fetch new_eps"]
    by (auto simp: Counter_map_of)
qed

theorem one_entry_per_title_witness:
  "\<exists>v. shows_block example_config (lit ''- '') two_shows [\<lparr>grandparentRatingKey = 1\<rparr>] = Inr v \<and>
       distinct (map fst (counted_shows v)) \<and>
       set (map fst (counted_shows v)) = set (newShows two_shows [\<lparr>grandparentRatingKey = 1\<rparr>])"
proof -
  have a: "[\<lparr>grandparentRatingKey = 1\<rparr>] \<noteq> []"
    by simp
  from one_entry_per_title [OF a, of example_config "lit ''- ''" two_shows]
  show ?thesis by blast
qed

text \<open>
  Claim C9 as stated fails: the show \<open>Foo\<close> of the year 2000 and the show titled
  \<open>Foo (2000)\<close> are two parent series with one display title, and their episodes are
  counted in a single entry.
\<close>

theorem two_series_one_entry:
  "distinct (map grandparentRatingKey [\<lparr>grandparentRatingKey = 1\<rparr>, \<lparr>grandparentRatingKey = 3\<rparr>]) \<and>
   same_title_shows 1 \<noteq> same_title_shows 3 \<and>
   map_sum id counted_shows
     (shows_block example_config (8226 # lit '' '') same_title_shows
        [\<lparr>grandparentRatingKey = 1\<rparr>, \<lparr>grandparentRatingKey = 3\<rparr>]) =
     Inr [(lit ''Foo (2000)'', 2)]"
  by (simp add: shows_defs)

section \<open>The total number of episodes\<close>

text \<open>
  Claim C10: the shows block of a non-empty list of episodes ends without an exception,
  and its \<open>total_episodes\<close>, the sum of the counts of the shows, is the number of episodes.
\<close>

theorem total_episodes_counts_every_episode:
  assumes "new_eps \<noteq> []"
  shows "\<exists>v. shows_block cfg b fetch new_eps = Inr v \<and>
             total_episodes v = length new_eps \<and>
             sum_list (map snd (counted_shows v)) = length new_eps"
proof -
  obtain v where v: "shows_block cfg b fetch new_eps = Inr v"
      "counted_shows v = Counter (newShows fetch new_eps)" "total_episodes v = length new_eps"
    using shows_block_Inr [OF assms, of cfg b fetch] by blast
  show ?thesis
    using v by (auto simp: Counter_sum newShows_def)
qed

theorem total_episodes_counts_every_episode_witness:
  "\<exists>v. shows_block example_config (lit ''- '') two_shows
           [\<lparr>grandparentRatingKey = 1\<rparr>, \<lparr>grandparentRatingKey = 2\<rparr>,
            \<lparr>grandparentRatingKey = 1\<rparr>] = Inr v \<and>
       total_episodes v = 3"
proof -
  have a: "[\<lparr>grandparentRatingKey = 1\<rparr>, \<lparr>grandparentRatingKey = 2\<rparr>,
            \<lparr>grandparentRatingKey = (1::nat)\<rparr>] \<noteq> []"
    by simp
  from total_episodes_counts_every_episode [OF a, of example_config "lit ''- ''" two_shows]
  show ?thesis by auto
qed

section \<open>Titles with a year\<close>

text \<open>
  On a title without a newline the pattern matches exactly when the title ends with a
  year in parentheses, and \<open>clean_year\<close> does what its comment says.
\<close>

lemma year_tail:
  "re_match [One (Chr 40), One (OneOf [49, 50]), Repeat (Range 48 57) 3, One (Chr 41), EndOfString] u =
     (year_in_parentheses u \<or> (u \<noteq> [] \<and> last u = newline \<and> year_in_parentheses (butlast u)))"
  by (simp add: year_in_parentheses_def is_digit_def re_match_Repeat split: list.split) blast

lemma year_in_parentheses_length: "year_in_parentheses u \<Longrightarrow> length u = 6"
  by (auto simp: year_in_parentheses_def split: list.splits)

lemma star_any:
  "re_match (Star AnyChar # p) t =
     (\<exists>k. k \<le> length t \<and> newline \<notin> set (take k t) \<and> re_match p (drop k t))"
proof (induction t)
  case Nil
  show ?case by simp
next
  case (Cons c cs)
  have "(\<exists>k. k \<le> length (c # cs) \<and> newline \<notin> set (take k (c # cs)) \<and> re_match p (drop k (c # cs))) =
        (re_match p (c # cs) \<or>
         (\<exists>k. k \<le> length cs \<and> newline \<notin> set (take (Suc k) (c # cs)) \<and> re_match p (drop (Suc k) (c # cs))))"
    (is "?l = ?r")
  proof
    assume ?l
    then obtain k where k: "k \<le> length (c # cs)" "newline \<notin> set (take k (c # cs))"
        "re_match p (drop k (c # cs))" by blast
    show ?r
    proof (cases k)
      case 0
      with k show ?thesis by simp
    next
      case (Suc j)
      with k show ?thesis by auto
    qed
  next
    assume ?r
    then show ?l
    proof
      assume "re_match p (c # cs)"
      then have "0 \<le> length (c # cs) \<and> newline \<notin> set (take 0 (c # cs)) \<and> re_match p (drop 0 (c # cs))"
        by simp
      then show ?l by blast
    next
      assume "\<exists>k. k \<le> length cs \<and> newline \<notin> set (take (Suc k) (c # cs)) \<and> re_match p (drop (Suc k) (c # cs))"
      then obtain k where "Suc k \<le> length (c # cs) \<and> newline \<notin> set (take (Suc k) (c # cs)) \<and> re_match p (drop (Suc k) (c # cs))"
        by auto
      then show ?l by blast
    qed
  qed
  then show ?case
    using Cons.IH by auto
qed

lemma year_regex_without_newline:
  assumes "newline \<notin> set t"
  shows "re_match year_regex t = ends_with_year t"
proof
  assume "re_match year_regex t"
  then obtain k where k: "k \<le> length t"
      "year_in_parentheses (drop k t) \<or>
         (drop k t \<noteq> [] \<and> last (drop k t) = newline \<and> year_in_parentheses (butlast (drop k t)))"
    unfolding year_regex_def star_any year_tail by blast
  have "drop k t \<noteq> [] \<Longrightarrow> last (drop k t) \<in> set t"
    by (metis in_set_dropD last_in_set)
  with k(2) assms have y: "year_in_parentheses (drop k t)"
    by auto
  then have "length t - k = 6"
    using year_in_parentheses_length by fastforce
  then have "k = length t - 6" "6 \<le> length t"
    using k(1) by auto
  with y show "ends_with_year t"
    by (simp add: ends_with_year_def)
next
  assume e: "ends_with_year t"
  let ?k = "length t - 6"
  have "?k \<le> length t \<and> newline \<notin> set (take ?k t) \<and> year_in_parentheses (drop ?k t)"
    using e assms by (auto simp: ends_with_year_def dest: in_set_takeD)
  then show "re_match year_regex t"
    unfolding year_regex_def star_any year_tail by blast
qed

lemma clean_year_without_newline:
  assumes "newline \<notin> set (title m)"
  shows "clean_year m =
           (if ends_with_year (title m) then title m
            else title m @ lit '' ('' @ str_int (year m) @ lit '')'')"
  using year_regex_without_newline [OF assms] by (simp add: clean_year_def)


text \<open>
  Claim C5 at titles with a newline: \<open>.\<close> does not match a newline, so a title that ends
  with a year in parentheses after a newline gets a second year; and \<open>$\<close> also holds
  before a final newline, so a title that ends with a newline after the year is left as
  it is.
\<close>

theorem clean_year_newline_titles:
  "clean_year \<lparr>title = lit ''a\<newline>(2000)'', year = 2000\<rparr> = lit ''a\<newline>(2000) (2000)'' \<and>
   clean_year \<lparr>title = lit ''(2000)\<newline>'', year = 1999\<rparr> = lit ''(2000)\<newline>''"
  by (simp add: clean_year_def year_regex_def newline_def str_int_def digits_small digits_large Let_def
      re_match_Repeat)

section \<open>A run with nothing to report\<close>

text \<open>
  Claim C8: when each library is skipped or has nothing new, a run sends nothing to the
  webhook. It prints that there is nothing to send and goes on to the uptime ping; a
  lookback period the script cannot read ends the run before that, with an exception.
\<close>

theorem nothing_sent_without_sections:
  assumes "skip_movies cfg \<or> movies_search w = []" and "skip_tv cfg \<or> searchEpisodes w = []"
  shows "run cfg w =
           (case lookback_text (lookback_period cfg) of
              Inl e \<Rightarrow> Inl e
            | Inr lt \<Rightarrow> Inr (Print nothing_to_send # uptime_ping cfg w)) \<and>
         \<not> list_ex is_send (Print nothing_to_send # uptime_ping cfg w)"
proof -
  have ping: "\<not> list_ex is_send (uptime_ping cfg w)"
    by (simp add: uptime_ping_def)
  have r: "run cfg w =
           (case lookback_text (lookback_period cfg) of
              Inl e \<Rightarrow> Inl e
            | Inr lt \<Rightarrow> Inr (Print nothing_to_send # uptime_ping cfg w))"
    using assms
    by (auto simp: run_def Let_def embed_length_def message_max_length_def sending_def
        split: sum.splits)
  show ?thesis
    using ping r by simp
qed

theorem nothing_sent_without_sections_witness:
  "run example_config (example_world [] [] no_show) = Inr [Print nothing_to_send]"
  using nothing_sent_without_sections [of example_config "example_world [] [] no_show"]
  by (simp add: example_config_def example_world_def lookback_text_def period_unit_def
      period_dict_def slice_to_def uptime_ping_def truthy_def)

end
